theory Spec2Isabelle
  imports Complex_Main
begin

section \<open>JavaScript numbers\<close>

text \<open>
  The component state \<open>intensity\<close> is a JavaScript \<open>number\<close>, an IEEE 754 binary64 value.
  A finite value is represented by the rational it denotes exactly; the negative zero, the two
  infinities and NaN are constructors of their own. Every arithmetic operation of the source
  is the exact operation on rationals followed by \<open>roundDouble\<close>, rounding to the nearest
  value with a 53-bit significand, ties to the even significand, with gradual underflow below
  \<open>pow2 (- 1022)\<close> and overflow to an infinity from \<open>pow2 1024\<close> on.
\<close>

datatype number = Finite rat | NegZero | PosInfinity | NegInfinity | NaN

definition pow2 :: "int \<Rightarrow> rat" where
  "pow2 e = (if 0 \<le> e then 2 ^ nat e else 1 / 2 ^ nat (- e))"

text \<open>
  The binary exponent of a positive rational \<open>a\<close>: the \<open>e\<close> with
  \<open>pow2 e \<le> a\<close> and \<open>a < pow2 (e + 1)\<close>, found by halving or doubling \<open>a\<close> until it lies
  between 1 and 2.
\<close>

function ilog2 :: "rat \<Rightarrow> int" where
  "ilog2 a =
     (if a \<le> 0 then 0
      else if 2 \<le> a then ilog2 (a / 2) + 1
      else if a < 1 then ilog2 (a * 2) - 1
      else 0)"
  by pat_completeness auto
termination
proof (relation "measure (\<lambda>a. nat (if 1 \<le> a then \<lfloor>a\<rfloor> else \<lceil>1 / a\<rceil>))")
  show "wf (measure (\<lambda>a::rat. nat (if 1 \<le> a then \<lfloor>a\<rfloor> else \<lceil>1 / a\<rceil>)))"
    by simp
next
  fix a :: rat
  assume "\<not> a \<le> 0" "2 \<le> a"
  then have "\<lfloor>a / 2\<rfloor> < \<lfloor>a\<rfloor>" "0 < \<lfloor>a\<rfloor>" "1 \<le> a"
    by linarith+
  moreover have "\<lceil>1 / (a / 2)\<rceil> \<le> 1" if "\<not> 1 \<le> a / 2"
  proof -
    from \<open>2 \<le> a\<close> have "1 / (a / 2) \<le> 1" by (simp add: field_simps)
    then show ?thesis by (simp add: ceiling_le_iff)
  qed
  ultimately show "(a / 2, a) \<in> measure (\<lambda>a. nat (if 1 \<le> a then \<lfloor>a\<rfloor> else \<lceil>1 / a\<rceil>))"
    using \<open>2 \<le> a\<close> by (auto simp: field_simps)
next
  fix a :: rat
  assume pos: "\<not> a \<le> 0" and "\<not> 2 \<le> a" and lt: "a < 1"
  from pos lt have big: "1 < 1 / a" by (simp add: field_simps)
  then have c2: "2 \<le> \<lceil>1 / a\<rceil>" by linarith
  show "(a * 2, a) \<in> measure (\<lambda>a. nat (if 1 \<le> a then \<lfloor>a\<rfloor> else \<lceil>1 / a\<rceil>))"
  proof (cases "1 \<le> a * 2")
    case True
    with lt have "\<lfloor>a * 2\<rfloor> = 1" by linarith
    with True lt c2 show ?thesis by simp
  next
    case False
    have "1 / (a * 2) = (1 / a) / 2" by simp
    moreover from False pos have "2 < 1 / a" by (simp add: field_simps)
    ultimately have "\<lceil>1 / (a * 2)\<rceil> < \<lceil>1 / a\<rceil>" by linarith
    with False lt c2 pos show ?thesis by simp
  qed
qed

definition roundTiesToEven :: "rat \<Rightarrow> int" where
  "roundTiesToEven m =
     (let f = \<lfloor>m\<rfloor>; d = m - of_int f
      in if d < 1 / 2 then f
         else if 1 / 2 < d then f + 1
         else if even f then f else f + 1)"

definition signedZero :: "bool \<Rightarrow> number" where
  "signedZero neg = (if neg then NegZero else Finite 0)"

definition signedInfinity :: "bool \<Rightarrow> number" where
  "signedInfinity neg = (if neg then NegInfinity else PosInfinity)"

definition roundDouble :: "rat \<Rightarrow> number" where
  "roundDouble x =
     (if x = 0 then Finite 0
      else let a = \<bar>x\<bar>;
               e = max (ilog2 a) (- 1022);
               u = pow2 (e - 52);
               r = of_int (roundTiesToEven (a / u)) * u
           in if pow2 1024 \<le> r then signedInfinity (x < 0)
              else if r = 0 then signedZero (x < 0)
              else Finite (if x < 0 then - r else r))"

fun isNeg :: "number \<Rightarrow> bool" where
  "isNeg (Finite r) = (r < 0)"
| "isNeg NegZero = True"
| "isNeg PosInfinity = False"
| "isNeg NegInfinity = True"
| "isNeg NaN = False"

fun isInf :: "number \<Rightarrow> bool" where
  "isInf PosInfinity = True"
| "isInf NegInfinity = True"
| "isInf _ = False"

fun val :: "number \<Rightarrow> rat" where
  "val (Finite r) = r"
| "val _ = 0"

fun fneg :: "number \<Rightarrow> number" where
  "fneg (Finite r) = (if r = 0 then NegZero else Finite (- r))"
| "fneg NegZero = Finite 0"
| "fneg PosInfinity = NegInfinity"
| "fneg NegInfinity = PosInfinity"
| "fneg NaN = NaN"

text \<open>The operators \<open>+\<close>, \<open>-\<close>, \<open>*\<close> and \<open>/\<close> of the source, on numbers.\<close>

definition fadd :: "number \<Rightarrow> number \<Rightarrow> number" where
  "fadd a b =
     (if a = NaN \<or> b = NaN then NaN
      else if isInf a \<and> isInf b then (if a = b then a else NaN)
      else if isInf a then a
      else if isInf b then b
      else if val a + val b = 0 then signedZero (isNeg a \<and> isNeg b)
      else roundDouble (val a + val b))"

definition fsub :: "number \<Rightarrow> number \<Rightarrow> number" where
  "fsub a b = fadd a (fneg b)"

definition fmul :: "number \<Rightarrow> number \<Rightarrow> number" where
  "fmul a b =
     (if a = NaN \<or> b = NaN then NaN
      else if isInf a \<or> isInf b then
        (if (\<not> isInf a \<and> val a = 0) \<or> (\<not> isInf b \<and> val b = 0) then NaN
         else signedInfinity (isNeg a \<noteq> isNeg b))
      else if val a * val b = 0 then signedZero (isNeg a \<noteq> isNeg b)
      else roundDouble (val a * val b))"

definition fdiv :: "number \<Rightarrow> number \<Rightarrow> number" where
  "fdiv a b =
     (if a = NaN \<or> b = NaN then NaN
      else if isInf a then (if isInf b then NaN else signedInfinity (isNeg a \<noteq> isNeg b))
      else if isInf b then signedZero (isNeg a \<noteq> isNeg b)
      else if val b = 0 then
        (if val a = 0 then NaN else signedInfinity (isNeg a \<noteq> isNeg b))
      else if val a = 0 then signedZero (isNeg a \<noteq> isNeg b)
      else roundDouble (val a / val b))"

text \<open>A decimal literal of the source denotes the double nearest to it.\<close>

definition lit :: "rat \<Rightarrow> number" where
  "lit r = roundDouble r"

subsection \<open>\<open>Number.prototype.toFixed\<close> with two fraction digits\<close>

text \<open>The decimal digits of a natural number, most significant first.\<close>

function digits :: "int \<Rightarrow> string" where
  "digits n =
     (if n < 10 then [''0123456789'' ! nat n]
      else digits (n div 10) @ [''0123456789'' ! nat (n mod 10)])"
  by pat_completeness auto
termination
  by (relation "measure nat") auto

text \<open>
  \<open>x.toFixed(2)\<close>: a value that is not finite prints as its name; otherwise the sign is
  split off, the integer \<open>n\<close> with \<open>n / 100\<close> nearest to the exact value is taken (the larger
  one of two), and its digits are printed with a point before the last two, padded with zeros
  to three digits. From \<open>10 ^ 21\<close> on the language prints the number in exponent notation,
  with a last digit that it leaves to the implementation; that printer is the parameter
  \<open>bigToString\<close>.
\<close>

definition toFixed2 :: "(rat \<Rightarrow> string) \<Rightarrow> number \<Rightarrow> string" where
  "toFixed2 bigToString x =
     (case x of
        NaN \<Rightarrow> ''NaN''
      | PosInfinity \<Rightarrow> ''Infinity''
      | NegInfinity \<Rightarrow> ''-Infinity''
      | NegZero \<Rightarrow> ''0.00''
      | Finite r \<Rightarrow>
          (let s = (if r < 0 then ''-'' else []);
               a = \<bar>r\<bar>
           in if 10 ^ 21 \<le> a then s @ bigToString a
              else
                let n = \<lfloor>a * 100 + 1 / 2\<rfloor>;
                    m = digits n;
                    m' = (if length m \<le> 2 then replicate (3 - length m) (CHR ''0'') @ m else m);
                    k = length m'
                in s @ take (k - 2) m' @ ''.'' @ drop (k - 2) m'))"

declare ilog2.simps [simp del] digits.simps [simp del]

section \<open>The filter graph and the engine command\<close>

text \<open>
  The state \<open>toneMapping\<close> is declared as one of three names, but at run time it is a string,
  and the cast in the handler of the select checks nothing; \<open>other\<close> is a name that is none of
  the three.
\<close>

datatype curve = hable | mobius | reinhard | other string

fun curveName :: "curve \<Rightarrow> string" where
  "curveName hable = ''hable''"
| "curveName mobius = ''mobius''"
| "curveName reinhard = ''reinhard''"
| "curveName (other name) = name"

definition inputName :: string where
  "inputName = ''input-video.mp4''"

definition outputName :: string where
  "outputName = ''hdr-output.mp4''"

text \<open>The four derived constants of \<open>processVideo\<close> and the inline \<open>desat\<close> value.\<close>

definition saturation :: "(rat \<Rightarrow> string) \<Rightarrow> number \<Rightarrow> string" where
  "saturation bts intensity = toFixed2 bts intensity"

definition contrast :: "(rat \<Rightarrow> string) \<Rightarrow> number \<Rightarrow> string" where
  "contrast bts intensity =
     toFixed2 bts (fadd (lit (9 / 10)) (fmul (fsub intensity (lit 1)) (lit (8 / 10))))"

definition highlight :: "(rat \<Rightarrow> string) \<Rightarrow> number \<Rightarrow> string" where
  "highlight bts intensity = toFixed2 bts (fmul (lit (3 / 10)) intensity)"

definition midtones :: "(rat \<Rightarrow> string) \<Rightarrow> number \<Rightarrow> string" where
  "midtones bts intensity = toFixed2 bts (fmul (lit (2 / 10)) intensity)"

definition desat :: "(rat \<Rightarrow> string) \<Rightarrow> number \<Rightarrow> string" where
  "desat bts intensity = toFixed2 bts (fdiv (lit (125 / 100)) intensity)"

definition filterComplex :: "(rat \<Rightarrow> string) \<Rightarrow> number \<Rightarrow> curve \<Rightarrow> string list" where
  "filterComplex bts intensity toneMapping =
     [''zscale=transfer=bt709:matrix=bt709:primaries=bt709'',
      ''split=3[luma][mid][hi]'',
      ''[luma]eq=gamma='' @ contrast bts intensity @ '':saturation='' @ saturation bts intensity
        @ ''[luma_adj]'',
      ''[mid]curves=preset=medium_contrast:intensity='' @ midtones bts intensity @ ''[mid_adj]'',
      ''[hi]curves=preset=strong_contrast:intensity='' @ highlight bts intensity @ ''[hi_adj]'',
      ''[luma_adj][mid_adj]blend=all_mode='screen'[mix1]'',
      ''[mix1][hi_adj]blend=all_mode='lighten'[pre_hdr]'',
      ''[pre_hdr]tonemap='' @ curveName toneMapping @ '':desat='' @ desat bts intensity
        @ '':peak=1000[z]'',
      ''[z]zscale=matrix=bt2020ncl:primaries=bt2020:transfer=smpte2084,format=yuv420p10le'']"

text \<open>\<open>Array.prototype.join\<close> with a separator.\<close>

fun join :: "string \<Rightarrow> string list \<Rightarrow> string" where
  "join sep [] = []"
| "join sep [x] = x"
| "join sep (x # y # ys) = x @ sep @ join sep (y # ys)"

definition command :: "(rat \<Rightarrow> string) \<Rightarrow> number \<Rightarrow> curve \<Rightarrow> string list" where
  "command bts intensity toneMapping =
     [''-i'', inputName,
      ''-vf'', join '';'' (filterComplex bts intensity toneMapping),
      ''-c:v'', ''libx265'',
      ''-preset'', ''medium'',
      ''-pix_fmt'', ''yuv420p10le'',
      ''-tag:v'', ''hvc1'',
      ''-c:a'', ''copy'',
      outputName]"

section \<open>The page component\<close>

text \<open>
  The component \<open>Home\<close> as a state machine. Its React state and the \<open>ffmpegRef\<close> are the
  first eight fields; the remaining fields are the environment the handlers act on: the
  object URLs of output blobs that are live in the page, the number of URLs handed out so
  far, the calls made to the engine and to the URL registry in the order they were made, the
  number of \<open>loadFFmpeg\<close> invocations waiting on \<open>ffmpeg.load\<close>, and the \<open>processVideo\<close>
  invocations waiting on the engine, each with the values its closure captured.

  A handler runs without interruption up to its first \<open>await\<close> and reads the state of the
  render that is current when it runs. What \<open>processVideo\<close> does after its first \<open>await\<close>
  is one step: while it waits, only the log handler and the two controls write to the state,
  and they write fields that the rest of \<open>processVideo\<close> neither reads nor writes. The
  preview URL of the selected file and the effect that revokes the output URL when the
  component unmounts are left out.
\<close>

datatype Stage = Idle | LoadingFFmpeg | Ready | Processing | Completed | Error

type_synonym bytes = "nat list"

datatype File = File string bytes

fun contents :: "File \<Rightarrow> bytes" where
  "contents (File name d) = d"

type_synonym url = nat

datatype call =
    Load
  | WriteFile string bytes
  | Exec "string list"
  | ReadFile string
  | DeleteFile string
  | CreateObjectURL url
  | RevokeObjectURL url

record job =
  jobFile :: File
  jobIntensity :: number
  jobToneMapping :: curve

record state =
  ffmpegRef :: bool
  stage :: Stage
  logMessages :: "string list"
  selectedFile :: "File option"
  outputUrl :: "url option"
  intensity :: number
  toneMapping :: curve
  errorMessage :: "string option"
  objectUrls :: "url set"
  urlCount :: nat
  calls :: "call list"
  loads :: nat
  jobs :: "job list"

definition initial :: state where
  "initial =
     \<lparr>ffmpegRef = False, stage = Idle, logMessages = [], selectedFile = None,
      outputUrl = None, intensity = lit (125 / 100), toneMapping = hable, errorMessage = None,
      objectUrls = {}, urlCount = 0, calls = [], loads = 0, jobs = []\<rparr>"

definition issue :: "call \<Rightarrow> state \<Rightarrow> state" where
  "issue c s = s\<lparr>calls := calls s @ [c]\<rparr>"

definition createObjectURL :: "state \<Rightarrow> url \<times> state" where
  "createObjectURL s =
     (urlCount s,
      issue (CreateObjectURL (urlCount s))
        (s\<lparr>objectUrls := insert (urlCount s) (objectUrls s), urlCount := Suc (urlCount s)\<rparr>))"

definition revokeObjectURL :: "url \<Rightarrow> state \<Rightarrow> state" where
  "revokeObjectURL u s = issue (RevokeObjectURL u) (s\<lparr>objectUrls := objectUrls s - {u}\<rparr>)"

subsection \<open>Loading the engine\<close>

text \<open>
  \<open>loadFFmpeg\<close> up to its first \<open>await\<close>: either the guard returns at once, or the stage is
  set and the initialisation is started and awaited. \<open>loadSettled\<close> is what runs when the
  awaited initialisation resolves (\<open>True\<close>) or throws (\<open>False\<close>).
\<close>

datatype completion = Returned | Pending

definition loadFFmpeg :: "state \<Rightarrow> completion \<times> state" where
  "loadFFmpeg s =
     (if ffmpegRef s \<or> stage s = LoadingFFmpeg then (Returned, s)
      else (Pending, issue Load (s\<lparr>stage := LoadingFFmpeg, loads := Suc (loads s)\<rparr>)))"

definition loadSettled :: "bool \<Rightarrow> state \<Rightarrow> state" where
  "loadSettled ok s =
     (if ok then s\<lparr>ffmpegRef := True, stage := Ready, loads := loads s - 1\<rparr>
      else s\<lparr>errorMessage := Some ''Failed to initialize the HDR engine. Refresh and try again.'',
             stage := Error, loads := loads s - 1\<rparr>)"

subsection \<open>The log handler\<close>

text \<open>\<open>Array.prototype.slice(start)\<close>: a negative start counts from the end.\<close>

definition slice :: "int \<Rightarrow> 'a list \<Rightarrow> 'a list" where
  "slice start xs =
     (let len = int (length xs);
          k = (if start < 0 then max (len + start) 0 else min start len)
      in drop (nat k) xs)"

definition appendLog :: "string list \<Rightarrow> string \<Rightarrow> string list" where
  "appendLog prev message = slice (- 24) prev @ [message]"

definition onLog :: "string \<Rightarrow> state \<Rightarrow> state" where
  "onLog message s = s\<lparr>logMessages := appendLog (logMessages s) message\<rparr>"

subsection \<open>Selecting a file\<close>

definition isProcessing :: "state \<Rightarrow> bool" where
  "isProcessing s = (stage s = Processing)"

definition isReady :: "state \<Rightarrow> bool" where
  "isReady s = (stage s = Ready \<or> stage s = Completed \<or> stage s = Idle \<or> stage s = Error)"

definition handleFileChange :: "File option \<Rightarrow> state \<Rightarrow> state" where
  "handleFileChange f s =
     (case f of
        None \<Rightarrow> s
      | Some file \<Rightarrow>
          let s1 = s\<lparr>selectedFile := Some file\<rparr>;
              s2 = (case outputUrl s1 of
                      None \<Rightarrow> s1
                    | Some previous \<Rightarrow> revokeObjectURL previous s1)\<lparr>outputUrl := None\<rparr>
          in s2\<lparr>stage := (if ffmpegRef s then Ready else stage s)\<rparr>)"

subsection \<open>Converting\<close>

text \<open>
  What the engine and the file reader do during one job is an input of the model:
  whether reading the selected file and staging it succeed, whether \<open>exec\<close> throws or
  returns an exit code, whether \<open>readFile\<close> throws or returns the bytes, and whether the two
  deletions throw.
\<close>

record outcome =
  fetchFile_ok :: bool
  writeFile_ok :: bool
  exec_result :: "int option"
  readFile_result :: "bytes option"
  deleteInput_ok :: bool
  deleteOutput_ok :: bool

text \<open>The part of \<open>processVideo\<close> before its first \<open>await\<close>.\<close>

definition processVideo_begin :: "state \<Rightarrow> state" where
  "processVideo_begin s =
     (case selectedFile s of
        None \<Rightarrow> s
      | Some file \<Rightarrow>
          if \<not> ffmpegRef s then s
          else s\<lparr>stage := Processing, errorMessage := None, logMessages := [],
                 jobs := jobs s @
                   [\<lparr>jobFile = file, jobIntensity = intensity s, jobToneMapping = toneMapping s\<rparr>]\<rparr>)"

text \<open>
  The \<open>try\<close> block: the result is \<open>True\<close> when it runs to its end and \<open>False\<close> when one of the
  awaited operations throws.
\<close>

definition tryBlock :: "(rat \<Rightarrow> string) \<Rightarrow> outcome \<Rightarrow> job \<Rightarrow> state \<Rightarrow> bool \<times> state" where
  "tryBlock bts oc j s =
     (if \<not> fetchFile_ok oc then (False, s)
      else
        let s1 = issue (WriteFile inputName (contents (jobFile j))) s
        in if \<not> writeFile_ok oc then (False, s1)
           else
             let s2 = issue (Exec (command bts (jobIntensity j) (jobToneMapping j))) s1
             in (case exec_result oc of
                   None \<Rightarrow> (False, s2)
                 | Some rc \<Rightarrow>
                     (let s3 = issue (ReadFile outputName) s2
                      in (case readFile_result oc of
                            None \<Rightarrow> (False, s3)
                          | Some fileData \<Rightarrow>
                              (case createObjectURL s3 of
                                 (u, s4) \<Rightarrow>
                                   (True, s4\<lparr>outputUrl := Some u, stage := Completed\<rparr>))))))"

definition catchBlock :: "state \<Rightarrow> state" where
  "catchBlock s =
     s\<lparr>errorMessage := Some ''Conversion failed. Try lowering intensity or using a shorter clip.'',
       stage := Error\<rparr>"

text \<open>\<open>deleteFile\<close> reports whether it threw; the \<open>finally\<close> block drops both reports.\<close>

definition deleteFile :: "string \<Rightarrow> bool \<Rightarrow> state \<Rightarrow> bool \<times> state" where
  "deleteFile name ok s = (ok, issue (DeleteFile name) s)"

definition finallyBlock :: "outcome \<Rightarrow> state \<Rightarrow> state" where
  "finallyBlock oc s =
     (if ffmpegRef s then
        case deleteFile inputName (deleteInput_ok oc) s of
          (r1, s1) \<Rightarrow> (case deleteFile outputName (deleteOutput_ok oc) s1 of (r2, s2) \<Rightarrow> s2)
      else s)"

text \<open>The rest of the oldest waiting \<open>processVideo\<close> invocation, run to its end.\<close>

definition processVideo_settle :: "(rat \<Rightarrow> string) \<Rightarrow> outcome \<Rightarrow> state \<Rightarrow> state" where
  "processVideo_settle bts oc s =
     (case jobs s of
        [] \<Rightarrow> s
      | j # js \<Rightarrow>
          finallyBlock oc
            (case tryBlock bts oc j (s\<lparr>jobs := js\<rparr>) of
               (True, s1) \<Rightarrow> s1
             | (False, s1) \<Rightarrow> catchBlock s1))"

subsection \<open>The two controls\<close>

text \<open>
  The intensity comes from a range input with \<open>min\<close> 1, \<open>max\<close> 1.7 and \<open>step\<close> 0.05. Whatever
  value is asked of it, the input holds the nearest value on its grid, the upper one of two,
  and an end of the range for a value beyond that end; the handler reads that value as a
  number. The curve comes from a select with three options, which holds no other value.
\<close>

definition sliderValue :: "rat \<Rightarrow> rat" where
  "sliderValue x =
     (if x < 1 then 1
      else if 17 / 10 < x then 17 / 10
      else 1 + of_int \<lfloor>(x - 1) / (5 / 100) + 1 / 2\<rfloor> * (5 / 100))"


definition selectOptions :: "curve list" where
  "selectOptions = [hable, mobius, reinhard]"

subsection \<open>Events\<close>

text \<open>
  One step per event of the page: the effect invoking \<open>loadFFmpeg\<close>, the awaited load
  settling, a change of the file input, a click on the convert button, the awaited engine
  work of a job settling, a log line from the engine, and a value asked of the slider or of
  the select. A disabled control delivers no event, the select delivers none for a value
  that is not among its options, and the log handler exists once an engine object has been
  created. The effect may run at any moment, which covers the runs that React schedules
  after a change of the stage.
\<close>

datatype event =
    Effect
  | LoadSettled bool
  | FileChange "File option"
  | ClickConvert
  | JobSettled outcome
  | Log string
  | IntensityChange rat
  | ToneMappingChange curve

fun step :: "(rat \<Rightarrow> string) \<Rightarrow> event \<Rightarrow> state \<Rightarrow> state" where
  "step bts Effect s = snd (loadFFmpeg s)"
| "step bts (LoadSettled ok) s = (if loads s = 0 then s else loadSettled ok s)"
| "step bts (FileChange f) s = (if \<not> isReady s then s else handleFileChange f s)"
| "step bts ClickConvert s =
     (if selectedFile s = None \<or> \<not> isReady s \<or> isProcessing s then s
      else processVideo_begin s)"
| "step bts (JobSettled oc) s = processVideo_settle bts oc s"
| "step bts (Log message) s = (if ffmpegRef s \<or> 0 < loads s then onLog message s else s)"
| "step bts (IntensityChange x) s = s\<lparr>intensity := lit (sliderValue x)\<rparr>"
| "step bts (ToneMappingChange c) s =
     (if c \<in> set selectOptions then s\<lparr>toneMapping := c\<rparr> else s)"

definition run :: "(rat \<Rightarrow> string) \<Rightarrow> event list \<Rightarrow> state \<Rightarrow> state" where
  "run bts evs s = foldl (\<lambda>s e. step bts e s) s evs"

subsection \<open>Reachable states\<close>

text \<open>
  What holds in every state the page can reach: at most one load and at most one job are
  waiting, the stage tells which, a job waits only with the engine in place, and no load
  waits once the engine is in place.
\<close>

definition inv :: "state \<Rightarrow> bool" where
  "inv s =
     (loads s \<le> 1 \<and> length (jobs s) \<le> 1
      \<and> (stage s = LoadingFFmpeg) = (loads s = 1)
      \<and> (stage s = Processing) = (jobs s \<noteq> [])
      \<and> (ffmpegRef s \<or> jobs s = [])
      \<and> (\<not> ffmpegRef s \<or> loads s = 0))"

text \<open>The calls that create or revoke an object URL.\<close>

fun isUrlCall :: "call \<Rightarrow> bool" where
  "isUrlCall (CreateObjectURL u) = True"
| "isUrlCall (RevokeObjectURL u) = True"
| "isUrlCall _ = False"











subsection \<open>Concrete inputs\<close>

text \<open>
  A clip, two behaviours of the engine and a printer for numbers from \<open>10 ^ 21\<close> on, used
  where a property is shown at a concrete input.
\<close>

definition clip :: File where
  "clip = File ''clip.mp4'' [0, 1, 2]"

definition succeeds :: outcome where
  "succeeds =
     \<lparr>fetchFile_ok = True, writeFile_ok = True, exec_result = Some 0,
      readFile_result = Some [7, 7], deleteInput_ok = True, deleteOutput_ok = True\<rparr>"

definition execThrows :: outcome where
  "execThrows =
     \<lparr>fetchFile_ok = True, writeFile_ok = True, exec_result = None,
      readFile_result = None, deleteInput_ok = False, deleteOutput_ok = False\<rparr>"

definition plain :: "rat \<Rightarrow> string" where
  "plain r = []"

text \<open>The page with the engine loaded, the clip selected and the first conversion started.\<close>

definition firstJob :: "event list" where
  "firstJob = [Effect, LoadSettled True, FileChange (Some clip), ClickConvert]"

section \<open>The log buffer\<close>

lemma appendLog_drop: "appendLog prev m = drop (length prev - 24) prev @ [m]"
  by (simp add: appendLog_def slice_def Let_def max_def nat_diff_distrib')

lemma length_appendLog: "length prev \<le> 25 \<Longrightarrow> length (appendLog prev m) \<le> 25"
  by (simp add: appendLog_drop)

lemma foldl_appendLog:
  "length b \<le> 25 \<Longrightarrow> foldl appendLog b ls = drop (length (b @ ls) - 25) (b @ ls)"
proof (induction ls arbitrary: b)
  case Nil
  then show ?case by simp
next
  case (Cons x xs)
  have len: "length (appendLog b x) \<le> 25"
    using Cons.prems by (rule length_appendLog)
  have step: "foldl appendLog (appendLog b x) xs
      = drop (length (appendLog b x @ xs) - 25) (appendLog b x @ xs)"
    using Cons.IH [OF len] .
  show ?case
  proof (cases "length b \<le> 24")
    case True
    then have "appendLog b x = b @ [x]" by (simp add: appendLog_drop)
    with step show ?thesis by simp
  next
    case False
    with Cons.prems have l: "length b = 25" by simp
    then obtain y ys where b: "b = y # ys" by (cases b) auto
    with l have a: "appendLog b x = ys @ [x]" by (simp add: appendLog_drop)
    from b l have ly: "length ys = 24" by simp
    have n1: "length (appendLog b x @ xs) - 25 = length xs"
      by (simp add: a ly)
    from b l have n2: "length (b @ x # xs) - 25 = Suc (length xs)"
      by simp
    have "foldl appendLog b (x # xs) = foldl appendLog (appendLog b x) xs"
      by simp
    also have "\<dots> = drop (length (appendLog b x @ xs) - 25) (appendLog b x @ xs)"
      by (rule step)
    also have "\<dots> = drop (length xs) (appendLog b x @ xs)"
      by (simp only: n1)
    also have "\<dots> = drop (length xs) (ys @ [x] @ xs)"
      by (simp only: a append_assoc)
    also have "\<dots> = drop (Suc (length xs)) (b @ x # xs)"
      by (simp only: b drop_Suc_Cons append_Cons append_Nil)
    finally show ?thesis
      by (simp only: n2)
  qed
qed

text \<open>
  Claim C7. Starting from the empty buffer, after any sequence of log lines the buffer
  holds the last 25 of them (all of them when there are fewer), in the order they came; thirty
  lines \<open>line 0, \<dots>, line 29\<close> leave \<open>line 5, \<dots>, line 29\<close>.
\<close>

theorem log_buffer_keeps_last_25:
  "foldl appendLog [] ls = drop (length ls - 25) ls
   \<and> length (foldl appendLog [] ls) = min 25 (length ls)
   \<and> foldl appendLog [] (map line [0..<30]) = map line [5..<30]"
proof -
  have g: "foldl appendLog [] xs = drop (length xs - 25) xs" for xs :: "string list"
    using foldl_appendLog [of "[]" xs] by simp
  have "foldl appendLog [] (map line [0..<30]) = drop 5 (map line [0..<30])"
    by (simp add: g)
  also have "\<dots> = map line [5..<30]"
    by (simp add: drop_map)
  finally show ?thesis
    by (auto simp: g)
qed

section \<open>The rounding functions\<close>

text \<open>The exponent found by \<open>ilog2\<close> brackets its argument, and rounding moves by at most one half.\<close>

lemma pow2_pos: "0 < pow2 e"
  by (simp add: pow2_def)

lemma pow2_add1: "pow2 (e + 1) = 2 * pow2 e"
proof (cases "0 \<le> e")
  case True
  then show ?thesis by (simp add: pow2_def nat_add_distrib)
next
  case False
  then have "nat (- e) = Suc (nat (- (e + 1)))" by simp
  with False show ?thesis by (simp add: pow2_def)
qed

lemma pow2_sub1: "pow2 (e - 1) = pow2 e / 2"
  using pow2_add1 [of "e - 1"] by simp

lemma ilog2_bounds: "0 < a \<Longrightarrow> pow2 (ilog2 a) \<le> a \<and> a < pow2 (ilog2 a + 1)"
proof (induction a rule: ilog2.induct)
  case (1 a)
  show ?case
  proof (cases "2 \<le> a")
    case True
    define e where "e = ilog2 (a / 2)"
    from True "1.prems" "1.IH"(1) have h: "pow2 e \<le> a / 2" "a / 2 < pow2 (e + 1)"
      by (simp_all add: e_def)
    from True "1.prems" have eq: "ilog2 a = e + 1"
      unfolding e_def by (subst ilog2.simps) simp
    have "pow2 (e + 1) = 2 * pow2 e" "pow2 (e + 1 + 1) = 2 * pow2 (e + 1)"
      by (rule pow2_add1)+
    with h show ?thesis
      unfolding eq by linarith
  next
    case False
    show ?thesis
    proof (cases "a < 1")
      case True
      define e where "e = ilog2 (a * 2)"
      from True False "1.prems" "1.IH"(2) have h: "pow2 e \<le> a * 2" "a * 2 < pow2 (e + 1)"
        by (simp_all add: e_def)
      from True False "1.prems" have eq: "ilog2 a = e - 1"
        unfolding e_def by (subst ilog2.simps) simp
      have "pow2 (e + 1) = 2 * pow2 e" "pow2 (e - 1) = pow2 e / 2" "e - 1 + 1 = e"
        by (simp_all add: pow2_add1 pow2_sub1)
      with h show ?thesis
        unfolding eq by (simp only:) linarith
    next
      case ge: False
      with False "1.prems" have "ilog2 a = 0"
        by (subst ilog2.simps) simp
      with ge False show ?thesis
        by (simp add: pow2_def)
    qed
  qed
qed

lemma roundTiesToEven_nearest: "\<bar>of_int (roundTiesToEven m) - m\<bar> \<le> 1 / 2"
proof -
  have "of_int \<lfloor>m\<rfloor> \<le> m" "m < of_int \<lfloor>m\<rfloor> + 1"
    by linarith+
  then show ?thesis
    by (auto simp: roundTiesToEven_def Let_def abs_le_iff)
qed

section \<open>Evaluating the arithmetic\<close>

lemma floor_rat_numeral: "\<lfloor>numeral a / numeral b :: rat\<rfloor> = numeral a div numeral b"
  by (metis floor_divide_of_int_eq of_int_numeral)

lemmas num_eval = lit_def roundDouble_def ilog2.simps pow2_def roundTiesToEven_def signedZero_def
  signedInfinity_def fadd_def fsub_def fmul_def fdiv_def floor_rat_numeral
  toFixed2_def digits.simps Let_def

lemma saturation_1_25: "saturation bts (Finite (5 / 4)) = ''1.25''"
  by (simp add: saturation_def num_eval split del: if_split)

lemma contrast_1_25: "contrast bts (Finite (5 / 4)) = ''1.10''"
  by (simp add: contrast_def num_eval split del: if_split)

lemma midtones_1_25: "midtones bts (Finite (5 / 4)) = ''0.25''"
  by (simp add: midtones_def num_eval split del: if_split)

lemma highlight_1_25: "highlight bts (Finite (5 / 4)) = ''0.38''"
  by (simp add: highlight_def num_eval split del: if_split)

lemma desat_1_25: "desat bts (Finite (5 / 4)) = ''1.00''"
  by (simp add: desat_def num_eval split del: if_split)

lemma saturation_1: "saturation bts (Finite 1) = ''1.00''"
  by (simp add: saturation_def num_eval split del: if_split)

lemma contrast_1: "contrast bts (Finite 1) = ''0.90''"
  by (simp add: contrast_def num_eval split del: if_split)

lemma midtones_1: "midtones bts (Finite 1) = ''0.20''"
  by (simp add: midtones_def num_eval split del: if_split)

lemma highlight_1: "highlight bts (Finite 1) = ''0.30''"
  by (simp add: highlight_def num_eval split del: if_split)

lemma desat_1: "desat bts (Finite 1) = ''1.25''"
  by (simp add: desat_def num_eval split del: if_split)

lemma initial_intensity: "lit (125 / 100) = Finite (5 / 4)"
  by (simp add: num_eval split del: if_split)

section \<open>The invariant\<close>

lemma inv_initial: "inv initial"
  by (simp add: inv_def initial_def)

lemma inv_loadFFmpeg: "inv s \<Longrightarrow> inv (snd (loadFFmpeg s))"
  by (auto simp: inv_def loadFFmpeg_def issue_def)

lemma inv_loadSettled: "inv s \<Longrightarrow> loads s \<noteq> 0 \<Longrightarrow> inv (loadSettled ok s)"
  by (auto simp: inv_def loadSettled_def)

lemma inv_handleFileChange: "inv s \<Longrightarrow> isReady s \<Longrightarrow> inv (handleFileChange f s)"
  by (auto simp: inv_def handleFileChange_def isReady_def revokeObjectURL_def issue_def Let_def
      split: option.splits)

lemma inv_processVideo_begin: "inv s \<Longrightarrow> isReady s \<Longrightarrow> inv (processVideo_begin s)"
  by (auto simp: inv_def processVideo_begin_def isReady_def split: option.splits)

lemma tryBlock_frame:
  "tryBlock bts oc j s = (r, s') \<Longrightarrow>
     ffmpegRef s' = ffmpegRef s \<and> loads s' = loads s \<and> jobs s' = jobs s
     \<and> stage s' = (if r then Completed else stage s)"
  by (auto simp: tryBlock_def issue_def createObjectURL_def Let_def
      split: if_splits option.splits)

lemma finallyBlock_frame:
  "ffmpegRef (finallyBlock oc s) = ffmpegRef s \<and> loads (finallyBlock oc s) = loads s
   \<and> jobs (finallyBlock oc s) = jobs s \<and> stage (finallyBlock oc s) = stage s"
  by (simp add: finallyBlock_def deleteFile_def issue_def)

lemma inv_processVideo_settle: "inv s \<Longrightarrow> inv (processVideo_settle bts oc s)"
proof (cases "jobs s")
  case Nil
  then show "inv s \<Longrightarrow> inv (processVideo_settle bts oc s)"
    by (simp add: processVideo_settle_def)
next
  case (Cons j js)
  assume i: "inv s"
  with Cons have js: "jobs s = [j]" by (simp add: inv_def)
  obtain r s' where t: "tryBlock bts oc j (s\<lparr>jobs := []\<rparr>) = (r, s')"
    by (cases "tryBlock bts oc j (s\<lparr>jobs := []\<rparr>)")
  note f = tryBlock_frame [OF t]
  show "inv (processVideo_settle bts oc s)"
    using i js f
    by (cases r) (auto simp: inv_def processVideo_settle_def t finallyBlock_frame catchBlock_def)
qed

lemma inv_step: "inv s \<Longrightarrow> inv (step bts e s)"
proof (cases e)
  case Effect
  then show "inv s \<Longrightarrow> inv (step bts e s)" by (simp add: inv_loadFFmpeg)
next
  case (LoadSettled ok)
  then show "inv s \<Longrightarrow> inv (step bts e s)" by (simp add: inv_loadSettled)
next
  case (FileChange f)
  then show "inv s \<Longrightarrow> inv (step bts e s)" by (simp add: inv_handleFileChange)
next
  case ClickConvert
  then show "inv s \<Longrightarrow> inv (step bts e s)" by (simp add: inv_processVideo_begin)
next
  case (JobSettled oc)
  then show "inv s \<Longrightarrow> inv (step bts e s)" by (simp add: inv_processVideo_settle)
next
  case (Log m)
  then show "inv s \<Longrightarrow> inv (step bts e s)" by (auto simp: inv_def onLog_def)
next
  case (IntensityChange v)
  then show "inv s \<Longrightarrow> inv (step bts e s)" by (simp add: inv_def)
next
  case (ToneMappingChange c)
  then show "inv s \<Longrightarrow> inv (step bts e s)" by (simp add: inv_def)
qed

lemma run_Nil: "run bts [] s = s"
  by (simp add: run_def)

lemma run_Cons: "run bts (e # evs) s = run bts evs (step bts e s)"
  by (simp add: run_def)

lemma run_append: "run bts (evs @ evs') s = run bts evs' (run bts evs s)"
  by (simp add: run_def)

lemma inv_run: "inv s \<Longrightarrow> inv (run bts evs s)"
  by (induction evs arbitrary: s) (simp_all add: run_Nil run_Cons inv_step)

lemma inv_reachable: "inv (run bts evs initial)"
  by (rule inv_run [OF inv_initial])

lemma floor_half: "\<lfloor>1 / 2 :: rat\<rfloor> = 0"
  by (simp add: floor_eq_iff)

lemma sliderValue_1: "sliderValue 1 = 1"
  by (simp add: sliderValue_def floor_half)


lemmas machine_eval = run_Nil run_Cons initial_def loadFFmpeg_def loadSettled_def issue_def
  sliderValue_1 selectOptions_def
  isReady_def isProcessing_def handleFileChange_def revokeObjectURL_def createObjectURL_def
  processVideo_begin_def processVideo_settle_def tryBlock_def catchBlock_def finallyBlock_def
  deleteFile_def onLog_def clip_def succeeds_def execThrows_def Let_def

section \<open>The compiled command\<close>

lemma lit_5_4: "lit (5 / 4) = Finite (5 / 4)"
  by (simp add: num_eval split del: if_split)

lemma lit_1: "lit 1 = Finite 1"
  by (simp add: num_eval split del: if_split)

lemma highlight_product: "fmul (lit (3 / 10)) (Finite (5 / 4)) = Finite (3 / 8)"
  by (simp add: num_eval split del: if_split)

lemma settle_exec:
  "jobs s = j # js \<Longrightarrow> fetchFile_ok oc \<Longrightarrow> writeFile_ok oc \<Longrightarrow>
     Exec (command bts (jobIntensity j) (jobToneMapping j))
       \<in> set (calls (processVideo_settle bts oc s))"
  by (simp add: processVideo_settle_def tryBlock_def catchBlock_def finallyBlock_def
      deleteFile_def issue_def createObjectURL_def Let_def split: option.splits)

text \<open>
  Claim C5. At intensity 1.25 with the curve mobius the derived parameters, each printed
  with two decimals, are gamma 1.10, saturation 1.25, midtone strength 0.25, highlight
  strength 0.38 (the product of 0.3 and 1.25 is the double 0.375, printed upwards) and
  desaturation 1.00, and the filter list carries exactly these.
\<close>

theorem derived_parameters_1_25_mobius:
  "contrast bts (lit (125 / 100)) = ''1.10''
   \<and> saturation bts (lit (125 / 100)) = ''1.25''
   \<and> midtones bts (lit (125 / 100)) = ''0.25''
   \<and> fmul (lit (3 / 10)) (lit (125 / 100)) = Finite (3 / 8)
   \<and> highlight bts (lit (125 / 100)) = ''0.38''
   \<and> desat bts (lit (125 / 100)) = ''1.00''
   \<and> filterComplex bts (lit (125 / 100)) mobius =
       [''zscale=transfer=bt709:matrix=bt709:primaries=bt709'',
        ''split=3[luma][mid][hi]'',
        ''[luma]eq=gamma=1.10:saturation=1.25[luma_adj]'',
        ''[mid]curves=preset=medium_contrast:intensity=0.25[mid_adj]'',
        ''[hi]curves=preset=strong_contrast:intensity=0.38[hi_adj]'',
        ''[luma_adj][mid_adj]blend=all_mode='screen'[mix1]'',
        ''[mix1][hi_adj]blend=all_mode='lighten'[pre_hdr]'',
        ''[pre_hdr]tonemap=mobius:desat=1.00:peak=1000[z]'',
        ''[z]zscale=matrix=bt2020ncl:primaries=bt2020:transfer=smpte2084,format=yuv420p10le'']"
  by (simp add: lit_5_4 filterComplex_def contrast_1_25 saturation_1_25 midtones_1_25
      highlight_1_25 desat_1_25 highlight_product)

text \<open>
  Claim C4. At intensity 1.0 with the curve hable the filter list has the nine stages in
  order with gamma 0.90, saturation 1.00, midtone strength 0.20, highlight strength 0.30 and
  desaturation 1.25; the command is \<open>-i\<close>, the input name, \<open>-vf\<close>, the stages joined by
  semicolons, the fixed encoder arguments and the output name; and a job started with these
  values passes exactly this list to \<open>exec\<close> once the input is staged.
\<close>

theorem command_1_hable:
  "filterComplex bts (lit 1) hable =
       [''zscale=transfer=bt709:matrix=bt709:primaries=bt709'',
        ''split=3[luma][mid][hi]'',
        ''[luma]eq=gamma=0.90:saturation=1.00[luma_adj]'',
        ''[mid]curves=preset=medium_contrast:intensity=0.20[mid_adj]'',
        ''[hi]curves=preset=strong_contrast:intensity=0.30[hi_adj]'',
        ''[luma_adj][mid_adj]blend=all_mode='screen'[mix1]'',
        ''[mix1][hi_adj]blend=all_mode='lighten'[pre_hdr]'',
        ''[pre_hdr]tonemap=hable:desat=1.25:peak=1000[z]'',
        ''[z]zscale=matrix=bt2020ncl:primaries=bt2020:transfer=smpte2084,format=yuv420p10le'']
   \<and> command bts (lit 1) hable =
       [''-i'', ''input-video.mp4'',
        ''-vf'',
        ''zscale=transfer=bt709:matrix=bt709:primaries=bt709;''
          @ ''split=3[luma][mid][hi];''
          @ ''[luma]eq=gamma=0.90:saturation=1.00[luma_adj];''
          @ ''[mid]curves=preset=medium_contrast:intensity=0.20[mid_adj];''
          @ ''[hi]curves=preset=strong_contrast:intensity=0.30[hi_adj];''
          @ ''[luma_adj][mid_adj]blend=all_mode='screen'[mix1];''
          @ ''[mix1][hi_adj]blend=all_mode='lighten'[pre_hdr];''
          @ ''[pre_hdr]tonemap=hable:desat=1.25:peak=1000[z];''
          @ ''[z]zscale=matrix=bt2020ncl:primaries=bt2020:transfer=smpte2084,format=yuv420p10le'',
        ''-c:v'', ''libx265'',
        ''-preset'', ''medium'',
        ''-pix_fmt'', ''yuv420p10le'',
        ''-tag:v'', ''hvc1'',
        ''-c:a'', ''copy'',
        ''hdr-output.mp4'']
   \<and> (jobs s = \<lparr>jobFile = f, jobIntensity = lit 1, jobToneMapping = hable\<rparr> # js
        \<longrightarrow> fetchFile_ok oc \<longrightarrow> writeFile_ok oc
        \<longrightarrow> Exec (command bts (lit 1) hable) \<in> set (calls (step bts (JobSettled oc) s)))"
proof -
  have fc: "filterComplex bts (lit 1) hable =
       [''zscale=transfer=bt709:matrix=bt709:primaries=bt709'',
        ''split=3[luma][mid][hi]'',
        ''[luma]eq=gamma=0.90:saturation=1.00[luma_adj]'',
        ''[mid]curves=preset=medium_contrast:intensity=0.20[mid_adj]'',
        ''[hi]curves=preset=strong_contrast:intensity=0.30[hi_adj]'',
        ''[luma_adj][mid_adj]blend=all_mode='screen'[mix1]'',
        ''[mix1][hi_adj]blend=all_mode='lighten'[pre_hdr]'',
        ''[pre_hdr]tonemap=hable:desat=1.25:peak=1000[z]'',
        ''[z]zscale=matrix=bt2020ncl:primaries=bt2020:transfer=smpte2084,format=yuv420p10le'']"
    by (simp add: lit_1 filterComplex_def contrast_1 saturation_1 midtones_1 highlight_1 desat_1)
  have cmd: "command bts (lit 1) hable =
       [''-i'', ''input-video.mp4'',
        ''-vf'',
        ''zscale=transfer=bt709:matrix=bt709:primaries=bt709;''
          @ ''split=3[luma][mid][hi];''
          @ ''[luma]eq=gamma=0.90:saturation=1.00[luma_adj];''
          @ ''[mid]curves=preset=medium_contrast:intensity=0.20[mid_adj];''
          @ ''[hi]curves=preset=strong_contrast:intensity=0.30[hi_adj];''
          @ ''[luma_adj][mid_adj]blend=all_mode='screen'[mix1];''
          @ ''[mix1][hi_adj]blend=all_mode='lighten'[pre_hdr];''
          @ ''[pre_hdr]tonemap=hable:desat=1.25:peak=1000[z];''
          @ ''[z]zscale=matrix=bt2020ncl:primaries=bt2020:transfer=smpte2084,format=yuv420p10le'',
        ''-c:v'', ''libx265'',
        ''-preset'', ''medium'',
        ''-pix_fmt'', ''yuv420p10le'',
        ''-tag:v'', ''hvc1'',
        ''-c:a'', ''copy'',
        ''hdr-output.mp4'']"
    unfolding command_def fc by (simp add: inputName_def outputName_def)
  have ex: "Exec (command bts (lit 1) hable) \<in> set (calls (step bts (JobSettled oc) s))"
    if "jobs s = \<lparr>jobFile = f, jobIntensity = lit 1, jobToneMapping = hable\<rparr> # js"
      "fetchFile_ok oc" "writeFile_ok oc"
    using settle_exec [OF that, of bts] by simp
  from fc cmd ex show ?thesis by blast
qed

theorem command_1_hable_witness:
  "jobs (run plain [Effect, LoadSettled True, FileChange (Some clip), IntensityChange 1,
           ClickConvert] initial)
     = \<lparr>jobFile = clip, jobIntensity = lit 1, jobToneMapping = hable\<rparr> # []
   \<and> fetchFile_ok succeeds \<and> writeFile_ok succeeds
   \<and> Exec (command plain (lit 1) hable)
       \<in> set (calls (step plain (JobSettled succeeds)
            (run plain [Effect, LoadSettled True, FileChange (Some clip), IntensityChange 1,
               ClickConvert] initial)))"
proof -
  have j: "jobs (run plain [Effect, LoadSettled True, FileChange (Some clip),
             IntensityChange 1, ClickConvert] initial)
     = \<lparr>jobFile = clip, jobIntensity = lit 1, jobToneMapping = hable\<rparr> # []"
    by (simp add: machine_eval)
  have o: "fetchFile_ok succeeds" "writeFile_ok succeeds"
    by (simp_all add: succeeds_def)
  from command_1_hable [of plain "run plain [Effect, LoadSettled True, FileChange (Some clip),
      IntensityChange 1, ClickConvert] initial" clip "[]" succeeds] j o
  show ?thesis by blast
qed

section \<open>One job at a time, and its cleanup\<close>

lemma click_while_processing: "stage s = Processing \<Longrightarrow> step bts ClickConvert s = s"
  by (simp add: isProcessing_def)

text \<open>
  The rejection is the disabled button. \<open>processVideo\<close> itself looks at the engine and the
  selected file only, not at the stage.
\<close>

lemma processVideo_begin_ignores_stage:
  "ffmpegRef s \<Longrightarrow> selectedFile s = Some f \<Longrightarrow>
     jobs (processVideo_begin s) =
       jobs s @ [\<lparr>jobFile = f, jobIntensity = intensity s, jobToneMapping = toneMapping s\<rparr>]"
  by (simp add: processVideo_begin_def)

text \<open>
  Claim C3. A click on the convert button while the stage is \<open>Processing\<close> changes nothing:
  state, log, waiting job and the calls made to the engine stay as they are. In every
  reachable state at most one job is waiting, and while one is waiting the stage is
  \<open>Processing\<close>, so no second job can be started.
\<close>

theorem single_flight_run:
  "(stage s = Processing \<longrightarrow> step bts ClickConvert s = s)
   \<and> length (jobs (run bts evs initial)) \<le> 1
   \<and> (jobs (run bts evs initial) \<noteq> [] \<longrightarrow> stage (run bts evs initial) = Processing)"
proof -
  have "stage s = Processing \<longrightarrow> step bts ClickConvert s = s"
    using click_while_processing by blast
  moreover from inv_reachable [of bts evs]
  have "length (jobs (run bts evs initial)) \<le> 1"
    and "jobs (run bts evs initial) \<noteq> [] \<longrightarrow> stage (run bts evs initial) = Processing"
    by (simp_all add: inv_def)
  ultimately show ?thesis by blast
qed

theorem single_flight_run_witness:
  "stage (run plain [Effect, LoadSettled True, FileChange (Some clip), ClickConvert] initial)
     = Processing
   \<and> jobs (run plain [Effect, LoadSettled True, FileChange (Some clip), ClickConvert] initial)
     \<noteq> []
   \<and> step plain ClickConvert
        (run plain [Effect, LoadSettled True, FileChange (Some clip), ClickConvert] initial)
     = run plain [Effect, LoadSettled True, FileChange (Some clip), ClickConvert] initial
   \<and> length (jobs (run plain [Effect, LoadSettled True, FileChange (Some clip), ClickConvert]
        initial)) \<le> 1"
proof -
  have st: "stage (run plain [Effect, LoadSettled True, FileChange (Some clip), ClickConvert]
      initial) = Processing"
    by (simp add: machine_eval)
  have jb: "jobs (run plain [Effect, LoadSettled True, FileChange (Some clip), ClickConvert]
      initial) \<noteq> []"
    by (simp add: machine_eval)
  from single_flight_run [of "run plain [Effect, LoadSettled True, FileChange (Some clip),
      ClickConvert] initial" plain "[Effect, LoadSettled True, FileChange (Some clip),
      ClickConvert]"] st jb
  show ?thesis by blast
qed

lemma names_differ: "inputName \<noteq> outputName"
  by (simp add: inputName_def outputName_def)

lemma settle_cleanup:
  assumes "jobs s = j # js" and "ffmpegRef s"
  shows "take (length (calls s)) (calls (processVideo_settle bts oc s)) = calls s
    \<and> count_list (drop (length (calls s)) (calls (processVideo_settle bts oc s)))
        (DeleteFile inputName) = 1
    \<and> count_list (drop (length (calls s)) (calls (processVideo_settle bts oc s)))
        (DeleteFile outputName) = 1
    \<and> drop (length (calls (processVideo_settle bts oc s)) - 2)
        (calls (processVideo_settle bts oc s)) = [DeleteFile inputName, DeleteFile outputName]
    \<and> (stage (processVideo_settle bts oc s) = Completed) =
        (fetchFile_ok oc \<and> writeFile_ok oc \<and> exec_result oc \<noteq> None
         \<and> readFile_result oc \<noteq> None)
    \<and> (stage (processVideo_settle bts oc s) = Error) =
        (\<not> (fetchFile_ok oc \<and> writeFile_ok oc \<and> exec_result oc \<noteq> None
         \<and> readFile_result oc \<noteq> None))"
  using assms names_differ
  by (cases "exec_result oc"; cases "readFile_result oc")
     (simp_all add: processVideo_settle_def tryBlock_def catchBlock_def finallyBlock_def
      deleteFile_def issue_def createObjectURL_def Let_def)

lemma tryBlock_ignores_deletion:
  "tryBlock bts (oc\<lparr>deleteInput_ok := a, deleteOutput_ok := b\<rparr>) j s = tryBlock bts oc j s"
  by (simp add: tryBlock_def Let_def split: option.splits)

lemma finallyBlock_ignores_deletion:
  "finallyBlock (oc\<lparr>deleteInput_ok := a, deleteOutput_ok := b\<rparr>) s = finallyBlock oc s"
  by (simp add: finallyBlock_def deleteFile_def)

lemma settle_ignores_deletion:
  "processVideo_settle bts (oc\<lparr>deleteInput_ok := a, deleteOutput_ok := b\<rparr>) s
     = processVideo_settle bts oc s"
  by (simp only: processVideo_settle_def tryBlock_ignores_deletion finallyBlock_ignores_deletion)

text \<open>
  Claim C6. For every job that is waiting in a reachable state, whatever the engine does,
  the calls made when the job settles end with one deletion of the input name followed by one
  deletion of the output name, and these are the only deletions; the job ends \<open>Completed\<close>
  exactly when reading, staging, execution and retrieval all went through, and \<open>Error\<close>
  otherwise; and whether either deletion throws changes nothing in the resulting state.
\<close>

theorem cleanup_runs_once:
  "jobs (run bts evs initial) \<noteq> [] \<longrightarrow>
     take (length (calls (run bts evs initial)))
        (calls (step bts (JobSettled oc) (run bts evs initial))) = calls (run bts evs initial)
     \<and> count_list (drop (length (calls (run bts evs initial)))
          (calls (step bts (JobSettled oc) (run bts evs initial)))) (DeleteFile inputName) = 1
     \<and> count_list (drop (length (calls (run bts evs initial)))
          (calls (step bts (JobSettled oc) (run bts evs initial)))) (DeleteFile outputName) = 1
     \<and> drop (length (calls (step bts (JobSettled oc) (run bts evs initial))) - 2)
          (calls (step bts (JobSettled oc) (run bts evs initial)))
        = [DeleteFile inputName, DeleteFile outputName]
     \<and> (stage (step bts (JobSettled oc) (run bts evs initial)) = Completed) =
          (fetchFile_ok oc \<and> writeFile_ok oc \<and> exec_result oc \<noteq> None
           \<and> readFile_result oc \<noteq> None)
     \<and> (stage (step bts (JobSettled oc) (run bts evs initial)) = Error) =
          (\<not> (fetchFile_ok oc \<and> writeFile_ok oc \<and> exec_result oc \<noteq> None
           \<and> readFile_result oc \<noteq> None))
     \<and> step bts (JobSettled (oc\<lparr>deleteInput_ok := a, deleteOutput_ok := b\<rparr>))
          (run bts evs initial)
        = step bts (JobSettled oc) (run bts evs initial)"
proof
  assume j: "jobs (run bts evs initial) \<noteq> []"
  then obtain j' js where c: "jobs (run bts evs initial) = j' # js"
    by (cases "jobs (run bts evs initial)") auto
  from j inv_reachable [of bts evs] have f: "ffmpegRef (run bts evs initial)"
    by (simp add: inv_def)
  from settle_cleanup [OF c f, of bts oc] settle_ignores_deletion
  show "take (length (calls (run bts evs initial)))
        (calls (step bts (JobSettled oc) (run bts evs initial))) = calls (run bts evs initial)
     \<and> count_list (drop (length (calls (run bts evs initial)))
          (calls (step bts (JobSettled oc) (run bts evs initial)))) (DeleteFile inputName) = 1
     \<and> count_list (drop (length (calls (run bts evs initial)))
          (calls (step bts (JobSettled oc) (run bts evs initial)))) (DeleteFile outputName) = 1
     \<and> drop (length (calls (step bts (JobSettled oc) (run bts evs initial))) - 2)
          (calls (step bts (JobSettled oc) (run bts evs initial)))
        = [DeleteFile inputName, DeleteFile outputName]
     \<and> (stage (step bts (JobSettled oc) (run bts evs initial)) = Completed) =
          (fetchFile_ok oc \<and> writeFile_ok oc \<and> exec_result oc \<noteq> None
           \<and> readFile_result oc \<noteq> None)
     \<and> (stage (step bts (JobSettled oc) (run bts evs initial)) = Error) =
          (\<not> (fetchFile_ok oc \<and> writeFile_ok oc \<and> exec_result oc \<noteq> None
           \<and> readFile_result oc \<noteq> None))
     \<and> step bts (JobSettled (oc\<lparr>deleteInput_ok := a, deleteOutput_ok := b\<rparr>))
          (run bts evs initial)
        = step bts (JobSettled oc) (run bts evs initial)"
    by simp
qed

theorem cleanup_runs_once_witness:
  "jobs (run plain firstJob initial) \<noteq> []
   \<and> count_list (drop (length (calls (run plain firstJob initial)))
        (calls (step plain (JobSettled execThrows) (run plain firstJob initial))))
        (DeleteFile inputName) = 1
   \<and> count_list (drop (length (calls (run plain firstJob initial)))
        (calls (step plain (JobSettled execThrows) (run plain firstJob initial))))
        (DeleteFile outputName) = 1
   \<and> stage (step plain (JobSettled execThrows) (run plain firstJob initial)) = Error
   \<and> step plain (JobSettled (execThrows\<lparr>deleteInput_ok := True, deleteOutput_ok := True\<rparr>))
        (run plain firstJob initial)
      = step plain (JobSettled execThrows) (run plain firstJob initial)"
proof -
  have j: "jobs (run plain firstJob initial) \<noteq> []"
    by (simp add: firstJob_def machine_eval)
  have o: "exec_result execThrows = None"
    by (simp add: execThrows_def)
  from cleanup_runs_once [of plain firstJob execThrows True True] j o
  show ?thesis by simp
qed

section \<open>Output handles\<close>

lemma log_frame:
  "outputUrl (step bts (Log m) s) = outputUrl s \<and> objectUrls (step bts (Log m) s) = objectUrls s
   \<and> urlCount (step bts (Log m) s) = urlCount s \<and> calls (step bts (Log m) s) = calls s
   \<and> jobs (step bts (Log m) s) = jobs s \<and> ffmpegRef (step bts (Log m) s) = ffmpegRef s
   \<and> loads (step bts (Log m) s) = loads s"
  by (simp add: onLog_def)

lemma logs_frame:
  "outputUrl (run bts (map Log ms) s) = outputUrl s
   \<and> objectUrls (run bts (map Log ms) s) = objectUrls s
   \<and> urlCount (run bts (map Log ms) s) = urlCount s
   \<and> calls (run bts (map Log ms) s) = calls s
   \<and> jobs (run bts (map Log ms) s) = jobs s
   \<and> ffmpegRef (run bts (map Log ms) s) = ffmpegRef s
   \<and> loads (run bts (map Log ms) s) = loads s"
proof (induction ms arbitrary: s)
  case Nil
  show ?case by (simp add: run_Nil)
next
  case (Cons m ms)
  show ?case
    using Cons.IH [of "step bts (Log m) s"] log_frame [of bts m s]
    by (simp add: run_Cons del: step.simps)
qed

lemma click_frame:
  "outputUrl (step bts ClickConvert s) = outputUrl s
   \<and> objectUrls (step bts ClickConvert s) = objectUrls s
   \<and> urlCount (step bts ClickConvert s) = urlCount s
   \<and> calls (step bts ClickConvert s) = calls s"
  by (simp add: processVideo_begin_def split: option.splits)

lemma settle_failed:
  assumes "\<not> fetchFile_ok oc \<or> \<not> writeFile_ok oc \<or> exec_result oc = None
    \<or> readFile_result oc = None"
  shows "outputUrl (processVideo_settle bts oc s) = outputUrl s
    \<and> objectUrls (processVideo_settle bts oc s) = objectUrls s
    \<and> urlCount (processVideo_settle bts oc s) = urlCount s
    \<and> filter isUrlCall (calls (processVideo_settle bts oc s)) = filter isUrlCall (calls s)"
  using assms
  by (cases "jobs s"; cases "exec_result oc"; cases "readFile_result oc")
     (auto simp: processVideo_settle_def tryBlock_def catchBlock_def finallyBlock_def
      deleteFile_def issue_def Let_def)

lemma settle_failed_state:
  assumes "\<not> fetchFile_ok oc \<or> \<not> writeFile_ok oc \<or> exec_result oc = None
    \<or> readFile_result oc = None" and "jobs s \<noteq> []"
  shows "processVideo_settle bts oc s =
     s\<lparr>errorMessage := Some ''Conversion failed. Try lowering intensity or using a shorter clip.'',
       stage := Error, calls := calls (processVideo_settle bts oc s), jobs := tl (jobs s)\<rparr>"
  using assms
  by (cases "jobs s"; cases "exec_result oc"; cases "readFile_result oc")
     (auto simp: processVideo_settle_def tryBlock_def catchBlock_def finallyBlock_def
      deleteFile_def issue_def Let_def)

text \<open>
  Claim C10. When a conversion fails (reading the file, staging, execution or retrieval
  throws), the output URL, the set of live object URLs and the calls that create or revoke
  URLs are, after the click, any log lines and the failure, what they were before the click;
  and the settling of a failed job changes only the stage and the error message, apart from
  recording the engine calls and removing the job from the waiting ones.
\<close>

theorem failed_conversion_keeps_output:
  "\<not> fetchFile_ok oc \<or> \<not> writeFile_ok oc \<or> exec_result oc = None \<or> readFile_result oc = None
   \<longrightarrow>
     outputUrl (step bts (JobSettled oc) (run bts (map Log ms) (step bts ClickConvert s)))
       = outputUrl s
     \<and> objectUrls (step bts (JobSettled oc) (run bts (map Log ms) (step bts ClickConvert s)))
       = objectUrls s
     \<and> filter isUrlCall
         (calls (step bts (JobSettled oc) (run bts (map Log ms) (step bts ClickConvert s))))
       = filter isUrlCall (calls s)
     \<and> (jobs s \<noteq> [] \<longrightarrow>
          step bts (JobSettled oc) s =
            s\<lparr>errorMessage :=
                Some ''Conversion failed. Try lowering intensity or using a shorter clip.'',
              stage := Error, calls := calls (step bts (JobSettled oc) s),
              jobs := tl (jobs s)\<rparr>)"
proof
  assume f: "\<not> fetchFile_ok oc \<or> \<not> writeFile_ok oc \<or> exec_result oc = None
    \<or> readFile_result oc = None"
  note a = settle_failed [OF f, of bts "run bts (map Log ms) (step bts ClickConvert s)"]
  note b = logs_frame [of bts ms "step bts ClickConvert s"]
  note c = click_frame [of bts s]
  have d: "jobs s \<noteq> [] \<longrightarrow>
          step bts (JobSettled oc) s =
            s\<lparr>errorMessage :=
                Some ''Conversion failed. Try lowering intensity or using a shorter clip.'',
              stage := Error, calls := calls (step bts (JobSettled oc) s),
              jobs := tl (jobs s)\<rparr>"
    using settle_failed_state [OF f, of s bts] by simp
  from a b c d
  show "outputUrl (step bts (JobSettled oc) (run bts (map Log ms) (step bts ClickConvert s)))
       = outputUrl s
     \<and> objectUrls (step bts (JobSettled oc) (run bts (map Log ms) (step bts ClickConvert s)))
       = objectUrls s
     \<and> filter isUrlCall
         (calls (step bts (JobSettled oc) (run bts (map Log ms) (step bts ClickConvert s))))
       = filter isUrlCall (calls s)
     \<and> (jobs s \<noteq> [] \<longrightarrow>
          step bts (JobSettled oc) s =
            s\<lparr>errorMessage :=
                Some ''Conversion failed. Try lowering intensity or using a shorter clip.'',
              stage := Error, calls := calls (step bts (JobSettled oc) s),
              jobs := tl (jobs s)\<rparr>)"
    by (simp del: step.simps(4))
qed

theorem failed_conversion_keeps_output_witness:
  "exec_result execThrows = None
   \<and> jobs (run plain (firstJob @ [JobSettled succeeds, ClickConvert]) initial) \<noteq> []
   \<and> outputUrl (step plain (JobSettled execThrows) (run plain (map Log [''frame=1''])
        (step plain ClickConvert
          (run plain (firstJob @ [JobSettled succeeds, ClickConvert]) initial)))) = Some 0
   \<and> objectUrls (step plain (JobSettled execThrows) (run plain (map Log [''frame=1''])
        (step plain ClickConvert
          (run plain (firstJob @ [JobSettled succeeds, ClickConvert]) initial)))) = {0}
   \<and> stage (step plain (JobSettled execThrows)
        (run plain (firstJob @ [JobSettled succeeds, ClickConvert]) initial)) = Error"
proof -
  have o: "exec_result execThrows = None"
    by (simp add: execThrows_def)
  have j: "jobs (run plain (firstJob @ [JobSettled succeeds, ClickConvert]) initial) \<noteq> []"
    by (simp add: firstJob_def machine_eval)
  have u: "outputUrl (run plain (firstJob @ [JobSettled succeeds, ClickConvert]) initial)
      = Some 0"
    "objectUrls (run plain (firstJob @ [JobSettled succeeds, ClickConvert]) initial) = {0}"
    by (simp_all add: firstJob_def machine_eval)
  from failed_conversion_keeps_output [of execThrows plain "[''frame=1'']"
      "run plain (firstJob @ [JobSettled succeeds, ClickConvert]) initial"] o j
  have r: "outputUrl (step plain (JobSettled execThrows) (run plain (map Log [''frame=1''])
        (step plain ClickConvert
          (run plain (firstJob @ [JobSettled succeeds, ClickConvert]) initial))))
      = outputUrl (run plain (firstJob @ [JobSettled succeeds, ClickConvert]) initial)"
    "objectUrls (step plain (JobSettled execThrows) (run plain (map Log [''frame=1''])
        (step plain ClickConvert
          (run plain (firstJob @ [JobSettled succeeds, ClickConvert]) initial))))
      = objectUrls (run plain (firstJob @ [JobSettled succeeds, ClickConvert]) initial)"
    "step plain (JobSettled execThrows)
        (run plain (firstJob @ [JobSettled succeeds, ClickConvert]) initial) =
      (run plain (firstJob @ [JobSettled succeeds, ClickConvert]) initial)
        \<lparr>errorMessage :=
           Some ''Conversion failed. Try lowering intensity or using a shorter clip.'',
         stage := Error,
         calls := calls (step plain (JobSettled execThrows)
           (run plain (firstJob @ [JobSettled succeeds, ClickConvert]) initial)),
         jobs := tl (jobs (run plain (firstJob @ [JobSettled succeeds, ClickConvert]) initial))\<rparr>"
    by blast+
  have "stage (step plain (JobSettled execThrows)
        (run plain (firstJob @ [JobSettled succeeds, ClickConvert]) initial)) = Error"
    by (subst r(3)) simp
  with o j u r(1,2) show ?thesis by simp
qed

text \<open>
  Claim C2, at the input where the code departs from it. The clip is converted
  twice in a row without a new file being selected, both conversions succeeding. The second
  URL is exposed while the first was never revoked, so two output URLs are live. With the
  same file selected again between the two conversions the first URL is revoked before the
  second is created.
\<close>

theorem reconversion_leaves_first_url_live:
  "outputUrl (run plain (firstJob @ [JobSettled succeeds, ClickConvert, JobSettled succeeds])
      initial) = Some 1
   \<and> objectUrls (run plain (firstJob @ [JobSettled succeeds, ClickConvert, JobSettled succeeds])
      initial) = {0, 1}
   \<and> filter isUrlCall
       (calls (run plain (firstJob @ [JobSettled succeeds, ClickConvert, JobSettled succeeds])
          initial))
     = [CreateObjectURL 0, CreateObjectURL 1]
   \<and> objectUrls (run plain (firstJob @ [JobSettled succeeds, FileChange (Some clip),
        ClickConvert, JobSettled succeeds]) initial) = {1}
   \<and> filter isUrlCall
       (calls (run plain (firstJob @ [JobSettled succeeds, FileChange (Some clip),
          ClickConvert, JobSettled succeeds]) initial))
     = [CreateObjectURL 0, RevokeObjectURL 0, CreateObjectURL 1]"
  by (auto simp add: firstJob_def machine_eval)

section \<open>The log sink\<close>

lemma begin_resets_log:
  "jobs (step bts ClickConvert s) \<noteq> jobs s \<Longrightarrow>
     logMessages (step bts ClickConvert s) = [] \<and> ffmpegRef (step bts ClickConvert s)"
  by (auto simp: processVideo_begin_def split: option.splits if_splits)

lemma logs_append:
  "ffmpegRef s \<or> 0 < loads s \<Longrightarrow>
     logMessages (run bts (map Log ms) s) = foldl appendLog (logMessages s) ms"
proof (induction ms arbitrary: s)
  case Nil
  show ?case by (simp add: run_Nil)
next
  case (Cons m ms)
  from Cons.prems have "ffmpegRef (step bts (Log m) s) \<or> 0 < loads (step bts (Log m) s)"
    by (simp add: onLog_def)
  from Cons.IH [OF this] Cons.prems show ?case
    by (simp add: run_Cons onLog_def)
qed

text \<open>
  Claim C8 as stated fails: a line that the engine emits after the job has ended, with
  the stage \<open>Completed\<close>, is appended to the log of that job.
\<close>

theorem log_outside_running_counterexample:
  "stage (run plain (firstJob @ [Log ''frame=1'', JobSettled succeeds]) initial) = Completed
   \<and> logMessages (run plain (firstJob @ [Log ''frame=1'', JobSettled succeeds]) initial)
     = [''frame=1'']
   \<and> logMessages (step plain (Log ''late'')
        (run plain (firstJob @ [Log ''frame=1'', JobSettled succeeds]) initial))
     = [''frame=1'', ''late'']"
  by (simp add: firstJob_def machine_eval appendLog_drop)

text \<open>
  Claim C8, amended. The log handler is registered when the engine object is created and
  is never removed: once an engine object exists, every line it emits is appended to the
  buffer, whatever the stage. The buffer is emptied when a job starts, so after the start of a
  job the buffer holds the lines emitted since that start (the last 25 of them) and none from
  before.
\<close>

theorem log_sink_stays_attached:
  "(ffmpegRef s \<or> 0 < loads s \<longrightarrow>
      logMessages (step bts (Log m) s) = appendLog (logMessages s) m)
   \<and> (jobs (step bts ClickConvert s) \<noteq> jobs s \<longrightarrow>
      logMessages (step bts ClickConvert s) = []
      \<and> logMessages (run bts (map Log ms) (step bts ClickConvert s))
        = drop (length ms - 25) ms)"
proof -
  have a: "ffmpegRef s \<or> 0 < loads s \<longrightarrow>
      logMessages (step bts (Log m) s) = appendLog (logMessages s) m"
    by (simp add: onLog_def)
  have b: "logMessages (step bts ClickConvert s) = []
      \<and> logMessages (run bts (map Log ms) (step bts ClickConvert s))
        = drop (length ms - 25) ms"
    if j: "jobs (step bts ClickConvert s) \<noteq> jobs s"
  proof -
    note r = begin_resets_log [OF j]
    from r have "logMessages (run bts (map Log ms) (step bts ClickConvert s))
        = foldl appendLog [] ms"
      using logs_append [of "step bts ClickConvert s" bts ms] by simp
    with r show ?thesis
      using foldl_appendLog [of "[]" ms] by simp
  qed
  from a b show ?thesis by blast
qed

theorem log_sink_stays_attached_witness:
  "ffmpegRef (run plain [Effect, LoadSettled True, FileChange (Some clip)] initial)
   \<and> stage (run plain [Effect, LoadSettled True, FileChange (Some clip)] initial) = Ready
   \<and> logMessages (step plain (Log ''idle line'')
        (run plain [Effect, LoadSettled True, FileChange (Some clip)] initial))
     = appendLog
        (logMessages (run plain [Effect, LoadSettled True, FileChange (Some clip)] initial))
        ''idle line''
   \<and> jobs (step plain ClickConvert
        (run plain [Effect, LoadSettled True, FileChange (Some clip), Log ''idle line''] initial))
     \<noteq> jobs (run plain [Effect, LoadSettled True, FileChange (Some clip), Log ''idle line'']
        initial)
   \<and> logMessages (run plain (map Log [''a'', ''b''])
        (step plain ClickConvert
          (run plain [Effect, LoadSettled True, FileChange (Some clip), Log ''idle line'']
             initial)))
     = [''a'', ''b'']"
proof -
  have f: "ffmpegRef (run plain [Effect, LoadSettled True, FileChange (Some clip)] initial)"
    "stage (run plain [Effect, LoadSettled True, FileChange (Some clip)] initial) = Ready"
    by (simp_all add: machine_eval)
  have j: "jobs (step plain ClickConvert
        (run plain [Effect, LoadSettled True, FileChange (Some clip), Log ''idle line''] initial))
     \<noteq> jobs (run plain [Effect, LoadSettled True, FileChange (Some clip), Log ''idle line'']
        initial)"
    by (simp add: machine_eval)
  from log_sink_stays_attached [of
      "run plain [Effect, LoadSettled True, FileChange (Some clip)] initial" plain
      "''idle line''"] f
  have a: "logMessages (step plain (Log ''idle line'')
        (run plain [Effect, LoadSettled True, FileChange (Some clip)] initial))
     = appendLog
        (logMessages (run plain [Effect, LoadSettled True, FileChange (Some clip)] initial))
        ''idle line''"
    by blast
  from log_sink_stays_attached [of
      "run plain [Effect, LoadSettled True, FileChange (Some clip), Log ''idle line''] initial"
      plain _ "[''a'', ''b'']"] j
  have b: "logMessages (run plain (map Log [''a'', ''b''])
        (step plain ClickConvert
          (run plain [Effect, LoadSettled True, FileChange (Some clip), Log ''idle line'']
             initial)))
     = drop (length [''a'', ''b''] - 25) [''a'', ''b'']"
    by blast
  from f j a b show ?thesis by simp
qed

section \<open>Loading once\<close>

lemma tryBlock_load_frame:
  "tryBlock bts oc j s = (r, s') \<Longrightarrow>
     ffmpegRef s' = ffmpegRef s \<and> count_list (calls s') Load = count_list (calls s) Load"
  by (auto simp: tryBlock_def issue_def createObjectURL_def Let_def
      split: if_splits option.splits)

lemma settle_load_frame:
  "ffmpegRef (processVideo_settle bts oc s) = ffmpegRef s
   \<and> count_list (calls (processVideo_settle bts oc s)) Load = count_list (calls s) Load"
proof (cases "jobs s")
  case Nil
  then show ?thesis by (simp add: processVideo_settle_def)
next
  case (Cons j js)
  obtain r s' where t: "tryBlock bts oc j (s\<lparr>jobs := js\<rparr>) = (r, s')"
    by (cases "tryBlock bts oc j (s\<lparr>jobs := js\<rparr>)")
  from tryBlock_load_frame [OF t] Cons show ?thesis
    by (cases r)
       (simp_all add: processVideo_settle_def t finallyBlock_def deleteFile_def issue_def
          catchBlock_def)
qed

lemma loaded_step:
  "ffmpegRef s \<Longrightarrow>
     ffmpegRef (step bts e s) \<and> count_list (calls (step bts e s)) Load = count_list (calls s) Load"
proof (cases e)
  case (JobSettled oc)
  then show "ffmpegRef s \<Longrightarrow>
     ffmpegRef (step bts e s) \<and> count_list (calls (step bts e s)) Load = count_list (calls s) Load"
    by (simp add: settle_load_frame)
qed (auto simp: loadFFmpeg_def loadSettled_def handleFileChange_def revokeObjectURL_def
    issue_def processVideo_begin_def onLog_def Let_def split: option.splits)

lemma loaded_run:
  "ffmpegRef s \<Longrightarrow>
     ffmpegRef (run bts evs s) \<and> count_list (calls (run bts evs s)) Load = count_list (calls s) Load"
proof (induction evs arbitrary: s)
  case Nil
  then show ?case by (simp add: run_Nil)
next
  case (Cons e evs)
  from loaded_step [OF Cons.prems, of bts e] Cons.IH [of "step bts e s"]
  show ?case by (simp add: run_Cons del: step.simps)
qed

text \<open>
  Claim C9 as stated fails: a second call of \<open>loadFFmpeg\<close> made while the first load is
  waiting does not wait for it. It returns at once, with the engine not loaded.
\<close>

theorem second_load_call_counterexample:
  "loads (step plain Effect initial) = 1
   \<and> \<not> ffmpegRef (step plain Effect initial)
   \<and> loadFFmpeg (step plain Effect initial) = (Returned, step plain Effect initial)"
  by (simp add: machine_eval)

text \<open>
  Claim C9, amended. In every reachable state at most one initialisation is waiting;
  a call of \<open>loadFFmpeg\<close> made while one is waiting returns at once, starting nothing and
  waiting for nothing, so the outcome reaches it only through the shared stage and engine
  reference; and once the engine reference is set, no later event clears it or starts
  another initialisation.
\<close>

theorem single_flight_load:
  "loads (run bts evs initial) \<le> 1
   \<and> (loads (run bts evs initial) = 1 \<longrightarrow>
        loadFFmpeg (run bts evs initial) = (Returned, run bts evs initial))
   \<and> (ffmpegRef s \<longrightarrow>
        loadFFmpeg s = (Returned, s)
        \<and> ffmpegRef (run bts evs' s)
        \<and> count_list (calls (run bts evs' s)) Load = count_list (calls s) Load)"
proof -
  from inv_reachable [of bts evs]
  have "loads (run bts evs initial) \<le> 1"
    and "loads (run bts evs initial) = 1 \<longrightarrow>
        loadFFmpeg (run bts evs initial) = (Returned, run bts evs initial)"
    by (simp_all add: inv_def loadFFmpeg_def)
  moreover have "ffmpegRef s \<longrightarrow>
        loadFFmpeg s = (Returned, s)
        \<and> ffmpegRef (run bts evs' s)
        \<and> count_list (calls (run bts evs' s)) Load = count_list (calls s) Load"
    using loaded_run [of s bts evs'] by (simp add: loadFFmpeg_def)
  ultimately show ?thesis by blast
qed

theorem single_flight_load_witness:
  "loads (run plain [Effect] initial) = 1
   \<and> loadFFmpeg (run plain [Effect] initial) = (Returned, run plain [Effect] initial)
   \<and> ffmpegRef (run plain [Effect, LoadSettled True] initial)
   \<and> ffmpegRef (run plain (Effect # FileChange (Some clip) # ClickConvert
        # JobSettled execThrows # [Effect]) (run plain [Effect, LoadSettled True] initial))
   \<and> count_list (calls (run plain (Effect # FileChange (Some clip) # ClickConvert
        # JobSettled execThrows # [Effect]) (run plain [Effect, LoadSettled True] initial))) Load
     = 1"
proof -
  have l: "loads (run plain [Effect] initial) = 1"
    by (simp add: machine_eval)
  have f: "ffmpegRef (run plain [Effect, LoadSettled True] initial)"
    "count_list (calls (run plain [Effect, LoadSettled True] initial)) Load = 1"
    by (simp_all add: machine_eval)
  from single_flight_load [of plain "[Effect]" "run plain [Effect, LoadSettled True] initial"
      "Effect # FileChange (Some clip) # ClickConvert # JobSettled execThrows # [Effect]"] l f
  show ?thesis by simp
qed

section \<open>The parameters and the controls\<close>






























end
